theory Spec2Isabelle
  imports Main "HOL-Library.Word" "HOL-Library.Sublist"
begin

section \<open>JavaScript values and strings\<close>

text \<open>
  A JavaScript string is a sequence of 16-bit UTF-16 code units: \<open>length\<close>,
  \<open>charCodeAt\<close>, \<open>includes\<close>, \<open>startsWith\<close>, \<open>replaceAll\<close> and a regular
  expression without the \<open>u\<close> flag all work on code units. A regular expression with
  the \<open>u\<close> flag reads the string as code points (see \<open>codePoints\<close> below).
\<close>

type_synonym code_unit = "16 word"
type_synonym js_string = "code_unit list"

abbreviation NUL :: code_unit where "NUL \<equiv> 0x0000"
abbreviation apostrophe :: code_unit where "apostrophe \<equiv> 0x27"
abbreviation backslash :: code_unit where "backslash \<equiv> 0x5C"
abbreviation tilde :: code_unit where "tilde \<equiv> 0x7E"

text \<open>
  The function is typed \<open>arg: string\<close>, but checks \<open>typeof arg\<close> at run time and the
  tests call it with \<open>null\<close>; so the argument is any JavaScript value. Only the type
  tag of a value that is not a string is ever inspected.
\<close>

datatype js_value =
    JSUndefined
  | JSNull
  | JSBoolean bool
  | JSNumber int
  | JSString js_string

fun typeof :: "js_value \<Rightarrow> string" where
  "typeof JSUndefined = ''undefined''"
| "typeof JSNull = ''object''"
| "typeof (JSBoolean b) = ''boolean''"
| "typeof (JSNumber n) = ''number''"
| "typeof (JSString s) = ''string''"

text \<open>
  The two exceptions the function throws, each with its message: \<open>new TypeError(m)\<close>
  and \<open>new Error(m)\<close>. The messages are ASCII and written as HOL strings.
\<close>

datatype js_error = TypeError string | Error string

section \<open>String operations of the runtime\<close>

text \<open>\<open>s.includes(pat)\<close>: \<open>pat\<close> occurs in \<open>s\<close> as a contiguous run of code units.\<close>

fun includes_js :: "js_string \<Rightarrow> js_string \<Rightarrow> bool" where
  "includes_js [] pat = (pat = [])"
| "includes_js (c # cs) pat = (prefix pat (c # cs) \<or> includes_js cs pat)"

text \<open>
  \<open>s.replaceAll(pat, rep)\<close> for a string pattern: the occurrences of \<open>pat\<close> are found
  from left to right, without overlap, and each is replaced by \<open>rep\<close>; the empty pattern
  matches before every code unit and at the end. The replacement text of the source,
  \<open>'\''\<close>, holds no \<open>$\<close>, so it is inserted as it is.
\<close>

function replaceAll :: "js_string \<Rightarrow> js_string \<Rightarrow> js_string \<Rightarrow> js_string" where
  "replaceAll [] pat rep = (if pat = [] then rep else [])"
| "replaceAll (c # cs) pat rep =
     (if pat = [] then rep @ c # replaceAll cs pat rep
      else if prefix pat (c # cs)
        then rep @ replaceAll (drop (length pat) (c # cs)) pat rep
      else c # replaceAll cs pat rep)"
  by pat_completeness auto
termination
  by (relation "measure (\<lambda>(s, pat, rep). length s)") auto

text \<open>
  The code points a regular expression with the \<open>u\<close> flag sees: a lead surrogate
  followed by a trail surrogate is one code point above U+FFFF, every other code unit
  (a lone surrogate too) is a code point of its own.
\<close>

definition isLeadSurrogate :: "code_unit \<Rightarrow> bool" where
  "isLeadSurrogate u = (0xD800 \<le> u \<and> u \<le> 0xDBFF)"

definition isTrailSurrogate :: "code_unit \<Rightarrow> bool" where
  "isTrailSurrogate u = (0xDC00 \<le> u \<and> u \<le> 0xDFFF)"

fun codePoints :: "js_string \<Rightarrow> nat list" where
  "codePoints [] = []"
| "codePoints [u] = [unat u]"
| "codePoints (u # v # rest) =
     (if isLeadSurrogate u \<and> isTrailSurrogate v
      then (0x10000 + (unat u - 0xD800) * 0x400 + (unat v - 0xDC00)) # codePoints rest
      else unat u # codePoints (v # rest))"

text \<open>
  Modelled from the spec: the Unicode \<open>White_Space\<close> property, which the regular
  expression \<open>\p{White_Space}\<close> reads from the runtime's Unicode tables; the tables are
  not part of the repository. The code points are those the spec lists (the same list
  stands in the doc comment of \<open>hasUnicodeWhitespace\<close>).
\<close>

definition isWhiteSpace :: "nat \<Rightarrow> bool" where
  "isWhiteSpace cp =
     ((0x0009 \<le> cp \<and> cp \<le> 0x000D) \<or> cp = 0x0020 \<or> cp = 0x0085 \<or> cp = 0x00A0
      \<or> cp = 0x1680 \<or> (0x2000 \<le> cp \<and> cp \<le> 0x200A) \<or> cp = 0x2028 \<or> cp = 0x2029
      \<or> cp = 0x202F \<or> cp = 0x205F \<or> cp = 0x3000)"

section \<open>The classification predicates\<close>

text \<open>\<open>s.startsWith("~")\<close>.\<close>

definition startsWithTilde :: "js_string \<Rightarrow> bool" where
  "startsWithTilde s = prefix [tilde] s"

text \<open>\<open>/[\p{White_Space}]/u.test(s)\<close>: some code point of \<open>s\<close> is in the class.\<close>

definition hasUnicodeWhitespace :: "js_string \<Rightarrow> bool" where
  "hasUnicodeWhitespace s = list_ex isWhiteSpace (codePoints s)"

text \<open>The loop over \<open>s.charCodeAt(i)\<close>, returning at the first control character.\<close>

fun hasAsciiControlChars :: "js_string \<Rightarrow> bool" where
  "hasAsciiControlChars [] = False"
| "hasAsciiControlChars (code # rest) =
     (if (0x01 \<le> code \<and> code \<le> 0x1F) \<or> code = 0x7F then True
      else hasAsciiControlChars rest)"

text \<open>
  The character class of the regular expression in \<open>hasShellMetaChars\<close>, in the order
  it is written: \<open>' " \ $ ` | & ; < > ( ) * ? [ ] { } ! #\<close>.
\<close>

definition shellMetaChars :: "code_unit list" where
  "shellMetaChars =
     [0x27, 0x22, 0x5C, 0x24, 0x60, 0x7C, 0x26, 0x3B, 0x3C, 0x3E,
      0x28, 0x29, 0x2A, 0x3F, 0x5B, 0x5D, 0x7B, 0x7D, 0x21, 0x23]"

text \<open>The test has no \<open>u\<close> flag: some code unit of \<open>s\<close> is in the class.\<close>

definition hasShellMetaChars :: "js_string \<Rightarrow> bool" where
  "hasShellMetaChars s = list_ex (\<lambda>c. c \<in> set shellMetaChars) s"

definition needsQuoting :: "js_string \<Rightarrow> bool" where
  "needsQuoting s =
     (length s = 0 \<or> startsWithTilde s \<or> hasUnicodeWhitespace s
      \<or> hasAsciiControlChars s \<or> hasShellMetaChars s)"

section \<open>The exported function\<close>

definition typeErrorMessage :: string where
  "typeErrorMessage = ''escape: arg must be a string''"

text \<open>
  The source's literal \<open>"escape: arg must not include NUL (\\u0000)"\<close> denotes a
  backslash followed by \<open>u0000\<close>, not the NUL character.
\<close>

definition nulErrorMessage :: string where
  "nulErrorMessage = ''escape: arg must not include NUL ('' @ [CHR 0x5C] @ ''u0000)''"

text \<open>
  A thrown exception is the result \<open>Inl\<close>, a returned string the result \<open>Inr\<close>. The
  \<open>case\<close> only takes the string out of the value: after the \<open>typeof\<close> test its last
  branch is never reached. The template literal is the concatenation of a quote, the
  result of \<open>replaceAll\<close> and a quote.
\<close>

definition shellEscapeArg :: "js_value \<Rightarrow> js_error + js_string" where
  "shellEscapeArg arg =
     (if typeof arg \<noteq> ''string'' then Inl (TypeError typeErrorMessage)
      else case arg of
        JSString s \<Rightarrow>
          if includes_js s [NUL] then Inl (Error nulErrorMessage)
          else if \<not> needsQuoting s then Inr s
          else Inr ([apostrophe] @ replaceAll s [apostrophe]
                      [apostrophe, backslash, apostrophe, apostrophe] @ [apostrophe])
      | _ \<Rightarrow> Inl (TypeError typeErrorMessage))"

section \<open>Reference notions of the specification\<close>

text \<open>
  The notions below are not code of the repository: they are what the specification
  compares the function with. Each follows the specification's words.
\<close>

abbreviation substitution :: js_string where
  "substitution \<equiv> [apostrophe, backslash, apostrophe, apostrophe]"

text \<open>
  The input with every single quote replaced by the four characters close-quote,
  backslash, single quote, open-quote, and every other character kept.
\<close>

fun escapeQuotes :: "js_string \<Rightarrow> js_string" where
  "escapeQuotes [] = []"
| "escapeQuotes (c # cs) =
     (if c = apostrophe then substitution @ escapeQuotes cs else c # escapeQuotes cs)"

text \<open>
  The number of positions of \<open>s\<close> at which \<open>pat\<close> occurs (occurrences that overlap
  are all counted).
\<close>

fun occurrences :: "js_string \<Rightarrow> js_string \<Rightarrow> nat" where
  "occurrences pat [] = 0"
| "occurrences pat (c # cs) = (if prefix pat (c # cs) then 1 else 0) + occurrences pat cs"

text \<open>
  A reader of shell words, after the quoting rules of the POSIX shell language: outside
  quotes a backslash makes the next character literal (a backslash before a newline is a
  line continuation and both are dropped), a single quote opens a quoted part, a blank
  (space, tab, newline) ends the word, and every other character is literal; inside
  single quotes every character but the single quote is literal, and the single quote
  closes the part. The reader returns the words of its input, or \<open>None\<close> when the input
  ends inside a quoted part or right after a backslash. \<open>sh_unquoted cur s\<close> reads \<open>s\<close>
  outside quotes, \<open>cur\<close> being the word read so far (\<open>None\<close> between words);
  \<open>sh_quoted w s\<close> reads \<open>s\<close> inside single quotes.
\<close>

abbreviation space :: code_unit where "space \<equiv> 0x20"
abbreviation tab :: code_unit where "tab \<equiv> 0x09"
abbreviation newline :: code_unit where "newline \<equiv> 0x0A"

definition isBlank :: "code_unit \<Rightarrow> bool" where
  "isBlank c = (c = space \<or> c = tab \<or> c = newline)"

fun wordSoFar :: "js_string option \<Rightarrow> js_string" where
  "wordSoFar None = []"
| "wordSoFar (Some w) = w"

fun sh_unquoted :: "js_string option \<Rightarrow> js_string \<Rightarrow> js_string list option"
  and sh_quoted :: "js_string \<Rightarrow> js_string \<Rightarrow> js_string list option" where
  "sh_unquoted cur [] = Some (case cur of None \<Rightarrow> [] | Some w \<Rightarrow> [w])"
| "sh_unquoted cur (c # cs) =
     (if c = apostrophe then sh_quoted (wordSoFar cur) cs
      else if c = backslash then
        (case cs of
           [] \<Rightarrow> None
         | d # ds \<Rightarrow>
             if d = newline then sh_unquoted cur ds
             else sh_unquoted (Some (wordSoFar cur @ [d])) ds)
      else if isBlank c then
        (case cur of
           None \<Rightarrow> sh_unquoted None cs
         | Some w \<Rightarrow> map_option ((#) w) (sh_unquoted None cs))
      else sh_unquoted (Some (wordSoFar cur @ [c])) cs)"
| "sh_quoted w [] = None"
| "sh_quoted w (c # cs) =
     (if c = apostrophe then sh_unquoted (Some w) cs else sh_quoted (w @ [c]) cs)"

definition shellWords :: "js_string \<Rightarrow> js_string list option" where
  "shellWords s = sh_unquoted None s"

text \<open>
  The blacklist as the specification names it, as code points: single quote, double
  quote, backslash, dollar, backtick, pipe, ampersand, semicolon, less-than,
  greater-than, left and right parenthesis, asterisk, question mark, left and right
  bracket, left and right brace, exclamation mark, hash.
\<close>

definition specBlacklist :: "nat list" where
  "specBlacklist =
     [0x27, 0x22, 0x5C, 0x24, 0x60, 0x7C, 0x26, 0x3B, 0x3C, 0x3E,
      0x28, 0x29, 0x2A, 0x3F, 0x5B, 0x5D, 0x7B, 0x7D, 0x21, 0x23]"

text \<open>
  The specification's conditions (a) to (e) on the code points of \<open>s\<close>, for a blacklist
  \<open>B\<close>: \<open>s\<close> is empty, begins with a tilde, holds a white-space code point, holds a
  control code point (U+0001 to U+001F, or U+007F), or holds a code point of \<open>B\<close>.
\<close>

definition needsQuotingSpec :: "nat set \<Rightarrow> js_string \<Rightarrow> bool" where
  "needsQuotingSpec B s =
     (s = []
      \<or> (\<exists>rest. codePoints s = 0x7E # rest)
      \<or> (\<exists>cp\<in>set (codePoints s). isWhiteSpace cp)
      \<or> (\<exists>cp\<in>set (codePoints s). (0x01 \<le> cp \<and> cp \<le> 0x1F) \<or> cp = 0x7F)
      \<or> (\<exists>cp\<in>set (codePoints s). cp \<in> B))"

section \<open>Facts about the runtime operations\<close>

lemma includes_js_single: "includes_js s [c] = (c \<in> set s)"
  by (induction s) auto

lemma replaceAll_apostrophe: "replaceAll s [apostrophe] substitution = escapeQuotes s"
  by (induction s) auto

lemma shellEscapeArg_string:
  "shellEscapeArg (JSString s) =
     (if NUL \<in> set s then Inl (Error nulErrorMessage)
      else if \<not> needsQuoting s then Inr s
      else Inr (apostrophe # escapeQuotes s @ [apostrophe]))"
  by (simp add: shellEscapeArg_def includes_js_single replaceAll_apostrophe)

lemma typeof_string_iff: "typeof v = ''string'' \<longleftrightarrow> (\<exists>s. v = JSString s)"
  by (cases v) simp_all

lemma shellEscapeArg_nonstring:
  "typeof v \<noteq> ''string'' \<Longrightarrow> shellEscapeArg v = Inl (TypeError typeErrorMessage)"
  by (simp add: shellEscapeArg_def)

subsection \<open>Code units and code points\<close>

lemma lead_unat: "isLeadSurrogate u \<Longrightarrow> 0xD800 \<le> unat u"
  by (simp add: isLeadSurrogate_def word_le_nat_alt)

lemma trail_unat: "isTrailSurrogate u \<Longrightarrow> 0xDC00 \<le> unat u"
  by (simp add: isTrailSurrogate_def word_le_nat_alt)

text \<open>
  Below the surrogates, the code points of a string are its code units: a surrogate
  pair stands for a code point from U+10000 on.
\<close>

lemma codePoints_small:
  "n < 0xD800 \<Longrightarrow> n \<in> set (codePoints s) \<longleftrightarrow> (\<exists>u\<in>set s. unat u = n)"
proof (induction s rule: codePoints.induct)
  case 1
  then show ?case by simp
next
  case (2 u)
  then show ?case by auto
next
  case (3 u v rest)
  then show ?case
    by (auto dest: lead_unat trail_unat)
qed

lemma codePoints_transfer:
  assumes "\<And>n. P n \<Longrightarrow> n < 0xD800"
  shows "(\<exists>cp\<in>set (codePoints s). P cp) \<longleftrightarrow> (\<exists>u\<in>set s. P (unat u))"
proof
  assume "\<exists>cp\<in>set (codePoints s). P cp"
  then obtain cp where cp: "cp \<in> set (codePoints s)" "P cp" by blast
  then have "cp < 0xD800" using assms by blast
  with cp show "\<exists>u\<in>set s. P (unat u)"
    using codePoints_small [of cp s] by blast
next
  assume "\<exists>u\<in>set s. P (unat u)"
  then obtain u where u: "u \<in> set s" "P (unat u)" by blast
  then have "unat u < 0xD800" using assms by blast
  with u show "\<exists>cp\<in>set (codePoints s). P cp"
    using codePoints_small [of "unat u" s] by blast
qed

lemma nul_code_point: "0 \<in> set (codePoints s) \<longleftrightarrow> NUL \<in> set s"
proof -
  have "0 \<in> set (codePoints s) \<longleftrightarrow> (\<exists>u\<in>set s. unat u = 0)"
    by (rule codePoints_small) simp
  also have "\<dots> \<longleftrightarrow> NUL \<in> set s"
    by (auto simp: unat_eq_0)
  finally show ?thesis .
qed

subsection \<open>The predicates, condition by condition\<close>

lemma startsWithTilde_iff: "startsWithTilde s \<longleftrightarrow> (\<exists>rest. s = tilde # rest)"
  by (cases s) (auto simp: startsWithTilde_def)

lemma hasAsciiControlChars_iff:
  "hasAsciiControlChars s \<longleftrightarrow> (\<exists>c\<in>set s. (0x01 \<le> c \<and> c \<le> 0x1F) \<or> c = 0x7F)"
  by (induction s) auto

lemma hasShellMetaChars_iff: "hasShellMetaChars s \<longleftrightarrow> (\<exists>c\<in>set s. c \<in> set shellMetaChars)"
  by (simp add: hasShellMetaChars_def list_ex_iff)

lemma codePoints_tilde:
  "(\<exists>rest. codePoints s = 0x7E # rest) \<longleftrightarrow> (\<exists>rest. s = tilde # rest)"
proof (cases s rule: codePoints.cases)
  case 1
  then show ?thesis by simp
next
  case (2 u)
  have "unat u = 0x7E \<longleftrightarrow> u = tilde"
    by (simp add: word_unat_eq_iff)
  with 2 show ?thesis by simp
next
  case (3 u v rest)
  have "unat u = 0x7E \<longleftrightarrow> u = tilde"
    by (simp add: word_unat_eq_iff)
  moreover have "isLeadSurrogate u \<Longrightarrow> u \<noteq> tilde"
    by (auto simp: isLeadSurrogate_def)
  ultimately show ?thesis using 3 by auto
qed

lemma control_code_points:
  "(\<exists>cp\<in>set (codePoints s). (0x01 \<le> cp \<and> cp \<le> 0x1F) \<or> cp = 0x7F)
   \<longleftrightarrow> hasAsciiControlChars s"
proof -
  have "(\<exists>cp\<in>set (codePoints s). (0x01 \<le> cp \<and> cp \<le> 0x1F) \<or> cp = 0x7F)
        \<longleftrightarrow> (\<exists>u\<in>set s. (0x01 \<le> unat u \<and> unat u \<le> 0x1F) \<or> unat u = 0x7F)"
    by (rule codePoints_transfer) auto
  also have "\<dots> \<longleftrightarrow> (\<exists>u\<in>set s. (0x01 \<le> u \<and> u \<le> 0x1F) \<or> u = 0x7F)"
    by (simp add: word_le_nat_alt word_unat_eq_iff)
  finally show ?thesis by (simp add: hasAsciiControlChars_iff)
qed

lemma blacklist_unit: "unat u \<in> set specBlacklist \<longleftrightarrow> u \<in> set shellMetaChars"
  by (simp add: specBlacklist_def shellMetaChars_def word_unat_eq_iff)

lemma blacklist_code_points:
  "(\<exists>cp\<in>set (codePoints s). cp \<in> set specBlacklist) \<longleftrightarrow> hasShellMetaChars s"
proof -
  have "(\<exists>cp\<in>set (codePoints s). cp \<in> set specBlacklist)
        \<longleftrightarrow> (\<exists>u\<in>set s. unat u \<in> set specBlacklist)"
    by (rule codePoints_transfer) (auto simp: specBlacklist_def)
  then show ?thesis by (simp add: blacklist_unit hasShellMetaChars_iff)
qed

text \<open>
  Each blacklisted character, as a string of its own, needs quoting and meets none of
  the conditions (a) to (d).
\<close>

lemma all_blacklisted:
  "list_all (\<lambda>cp. needsQuoting [of_nat cp] \<and> codePoints [of_nat cp] = [cp] \<and> cp \<noteq> 0x7E
      \<and> \<not> isWhiteSpace cp \<and> \<not> ((0x01 \<le> cp \<and> cp \<le> 0x1F) \<or> cp = 0x7F)) specBlacklist"
  by (simp add: specBlacklist_def needsQuoting_def hasShellMetaChars_def shellMetaChars_def
        isWhiteSpace_def)

lemma single_blacklisted:
  assumes "cp \<in> set specBlacklist"
  shows "needsQuoting [of_nat cp] \<and> codePoints [of_nat cp] = [cp] \<and> cp \<noteq> 0x7E
         \<and> \<not> isWhiteSpace cp \<and> \<not> ((0x01 \<le> cp \<and> cp \<le> 0x1F) \<or> cp = 0x7F)"
  using assms all_blacklisted unfolding list_all_iff by blast

lemma apostrophe_needsQuoting: "apostrophe \<in> set s \<Longrightarrow> needsQuoting s"
  by (auto simp: needsQuoting_def hasShellMetaChars_iff shellMetaChars_def)

lemma backslash_needsQuoting: "backslash \<in> set s \<Longrightarrow> needsQuoting s"
  by (auto simp: needsQuoting_def hasShellMetaChars_iff shellMetaChars_def)

lemma blank_needsQuoting:
  assumes c: "c \<in> set s" and b: "isBlank c"
  shows "needsQuoting s"
proof -
  from b have small: "unat c < 0xD800" and ws: "isWhiteSpace (unat c)"
    by (auto simp: isBlank_def isWhiteSpace_def)
  from c small have "unat c \<in> set (codePoints s)"
    using codePoints_small [of "unat c" s] by blast
  with ws have "hasUnicodeWhitespace s"
    by (auto simp: hasUnicodeWhitespace_def list_ex_iff)
  then show ?thesis by (simp add: needsQuoting_def)
qed

subsection \<open>The quoted form\<close>

lemma set_escapeQuotes: "set (escapeQuotes s) \<subseteq> set s \<union> {apostrophe, backslash}"
  by (induction s) auto

lemma no_double_quote_start:
  "\<not> prefix [apostrophe, apostrophe] (escapeQuotes s @ [apostrophe])"
  by (cases s) auto

text \<open>
  No occurrence of the substitution starts at the last quote of a substitution or at
  the opening quote: what follows such a quote is never backslash, quote, quote.
\<close>

lemma no_spurious_start:
  "\<not> prefix substitution (apostrophe # escapeQuotes s @ [apostrophe])"
proof (cases s)
  case Nil
  then show ?thesis by simp
next
  case (Cons c cs)
  then show ?thesis
    using no_double_quote_start [of cs] by auto
qed

lemma occurrences_body:
  "occurrences substitution (escapeQuotes s @ [apostrophe]) = count_list s apostrophe"
proof (induction s)
  case Nil
  then show ?case by simp
next
  case (Cons c cs)
  then show ?case
    using no_spurious_start [of cs] by auto
qed

lemma occurrences_none: "apostrophe \<notin> set s \<Longrightarrow> occurrences substitution s = 0"
  by (induction s) auto

subsection \<open>Reading the output back\<close>

lemma sh_quoted_escapeQuotes:
  "sh_quoted w (escapeQuotes s @ [apostrophe]) = Some [w @ s]"
proof (induction s arbitrary: w)
  case Nil
  then show ?case by simp
next
  case (Cons c cs)
  show ?case
  proof (cases "c = apostrophe")
    case True
    then show ?thesis
      using Cons.IH [of "w @ [apostrophe]"] by simp
  next
    case False
    then show ?thesis
      using Cons.IH [of "w @ [c]"] by simp
  qed
qed

lemma sh_unquoted_plain:
  "apostrophe \<notin> set s \<Longrightarrow> backslash \<notin> set s \<Longrightarrow> \<forall>c\<in>set s. \<not> isBlank c \<Longrightarrow>
   sh_unquoted (Some w) s = Some [w @ s]"
  by (induction s arbitrary: w) auto

section \<open>The claims\<close>

subsection \<open>C1: reading the output back gives the input\<close>

text \<open>
  Claim C1. For every input string without U+0000, the string that \<open>shellEscapeArg\<close>
  returns, read as POSIX shell words (outside quotes a backslash makes the next
  character literal and other characters stand for themselves, inside single quotes
  every character but the single quote is literal), is exactly one word, and that word
  is the input.
\<close>

theorem shellEscapeArg_round_trip:
  "NUL \<notin> set s \<Longrightarrow>
   \<exists>out. shellEscapeArg (JSString s) = Inr out \<and> shellWords out = Some [s]"
proof (cases "needsQuoting s")
  case True
  assume "NUL \<notin> set s"
  with True show ?thesis
    using sh_quoted_escapeQuotes [of "[]" s]
    by (simp add: shellEscapeArg_string shellWords_def)
next
  case False
  assume nul: "NUL \<notin> set s"
  from False obtain c cs where s: "s = c # cs"
    by (cases s) (auto simp: needsQuoting_def)
  from False have plain:
    "apostrophe \<notin> set s" "backslash \<notin> set s" "\<forall>c\<in>set s. \<not> isBlank c"
    using apostrophe_needsQuoting backslash_needsQuoting blank_needsQuoting by blast+
  then have "sh_unquoted (Some [c]) cs = Some [[c] @ cs]"
    by (intro sh_unquoted_plain) (auto simp: s)
  with plain have "sh_unquoted None s = Some [s]"
    by (simp add: s)
  with nul False show ?thesis
    by (simp add: shellEscapeArg_string shellWords_def)
qed

text \<open>The input \<open>a 'b\<close>: the output is \<open>'a '\''b'\<close>, which reads back as \<open>a 'b\<close>.\<close>

theorem shellEscapeArg_round_trip_witness:
  "NUL \<notin> set [0x61, space, apostrophe, 0x62]
   \<and> shellEscapeArg (JSString [0x61, space, apostrophe, 0x62])
       = Inr [apostrophe, 0x61, space, apostrophe, backslash, apostrophe, apostrophe, 0x62,
              apostrophe]
   \<and> shellWords [apostrophe, 0x61, space, apostrophe, backslash, apostrophe, apostrophe, 0x62,
                 apostrophe]
       = Some [[0x61, space, apostrophe, 0x62]]"
proof -
  have h: "NUL \<notin> set [0x61, space, apostrophe, 0x62 :: code_unit]" by simp
  have out: "shellEscapeArg (JSString [0x61, space, apostrophe, 0x62])
      = Inr [apostrophe, 0x61, space, apostrophe, backslash, apostrophe, apostrophe, 0x62,
             apostrophe]"
    using apostrophe_needsQuoting [of "[0x61, space, apostrophe, 0x62]"]
    by (simp add: shellEscapeArg_string)
  show ?thesis
    using h out shellEscapeArg_round_trip [OF h] by simp
qed

subsection \<open>C2: the error messages\<close>

text \<open>
  Claim C2, as amended. Whenever \<open>shellEscapeArg\<close> fails, the error is either the
  TypeError with the message "escape: arg must be a string", for an argument that is not
  a string, or the Error with the message "escape: arg must not include NUL (\u0000)"
  (a backslash, then u0000), for a string that holds U+0000. Both messages begin with
  "escape: ", which the claim as written leaves out.
\<close>

theorem shellEscapeArg_error_messages:
  "shellEscapeArg v = Inl e \<Longrightarrow>
   (e = TypeError ''escape: arg must be a string'' \<and> typeof v \<noteq> ''string'')
   \<or> (e = Error (''escape: arg must not include NUL ('' @ [CHR 0x5C] @ ''u0000)'')
       \<and> (\<exists>s. v = JSString s \<and> NUL \<in> set s))"
  by (cases v)
     (auto simp: shellEscapeArg_string shellEscapeArg_nonstring typeErrorMessage_def
        nulErrorMessage_def split: if_splits)

theorem shellEscapeArg_error_messages_witness:
  "shellEscapeArg JSNull = Inl (TypeError ''escape: arg must be a string'')
   \<and> typeof JSNull \<noteq> ''string''"
proof -
  have h: "shellEscapeArg JSNull = Inl (TypeError ''escape: arg must be a string'')"
    by (simp add: shellEscapeArg_nonstring typeErrorMessage_def)
  show ?thesis
    using h shellEscapeArg_error_messages [OF h] by simp
qed

text \<open>
  The claim as written fails on \<open>null\<close> and on \<open>a\<close>, U+0000, \<open>b\<close>: the messages thrown
  are not the ones it states.
\<close>

theorem shellEscapeArg_error_messages_counterexample:
  "shellEscapeArg JSNull = Inl (TypeError ''escape: arg must be a string'')
   \<and> shellEscapeArg JSNull \<noteq> Inl (TypeError ''arg must be a string'')
   \<and> shellEscapeArg (JSString [0x61, NUL, 0x62])
       = Inl (Error (''escape: arg must not include NUL ('' @ [CHR 0x5C] @ ''u0000)''))
   \<and> shellEscapeArg (JSString [0x61, NUL, 0x62])
       \<noteq> Inl (Error (''arg must not include NUL ('' @ [CHR 0x5C] @ ''u0000)''))"
  by (simp add: shellEscapeArg_string shellEscapeArg_nonstring typeErrorMessage_def
        nulErrorMessage_def)

subsection \<open>C3: when quoting is needed\<close>

text \<open>
  Claim C3, as amended. For every string \<open>s\<close>, \<open>needsQuoting s\<close> holds if and only if
  \<open>s\<close> is empty, or begins with a tilde, or holds a code point with the White_Space
  property, or holds a code point in U+0001 to U+001F or equal to U+007F, or holds one
  of the blacklist characters \<open>' " \ $ ` | & ; < > ( ) * ? [ ] { } ! #\<close>; these are 20
  characters, not 19.
\<close>

theorem needsQuoting_characterisation:
  "(needsQuoting s \<longleftrightarrow> needsQuotingSpec (set specBlacklist) s)
   \<and> distinct specBlacklist \<and> length specBlacklist = 20"
proof -
  have "needsQuoting s \<longleftrightarrow> needsQuotingSpec (set specBlacklist) s"
    unfolding needsQuoting_def needsQuotingSpec_def
    by (simp only: codePoints_tilde control_code_points blacklist_code_points
          startsWithTilde_iff hasUnicodeWhitespace_def list_ex_iff length_0_conv)
  moreover have "distinct specBlacklist \<and> length specBlacklist = 20"
    by (simp add: specBlacklist_def)
  ultimately show ?thesis by simp
qed

text \<open>The string \<open>a#\<close> needs quoting, so it meets the specification's conditions.\<close>

theorem needsQuoting_characterisation_witness:
  "needsQuoting [0x61, 0x23] \<and> needsQuotingSpec (set specBlacklist) [0x61, 0x23]"
proof -
  have h: "needsQuoting [0x61, 0x23]"
    by (simp add: needsQuoting_def hasShellMetaChars_def shellMetaChars_def)
  show ?thesis
    using h needsQuoting_characterisation [of "[0x61, 0x23]"] by blast
qed

text \<open>
  No set of 19 characters can stand as the blacklist: each of the 20 characters of the
  character class, as a string of its own, needs quoting for no other reason.
\<close>

theorem needsQuoting_blacklist_counterexample:
  "\<not> (\<exists>B. card B = 19 \<and> (\<forall>s. needsQuoting s \<longleftrightarrow> needsQuotingSpec B s))"
proof
  assume "\<exists>B. card B = 19 \<and> (\<forall>s. needsQuoting s \<longleftrightarrow> needsQuotingSpec B s)"
  then obtain B where card: "card B = 19"
    and spec: "\<And>s. needsQuoting s \<longleftrightarrow> needsQuotingSpec B s"
    by blast
  have "cp \<in> B" if "cp \<in> set specBlacklist" for cp
  proof -
    from single_blacklisted [OF that]
    have nq: "needsQuoting [of_nat cp]" and cps: "codePoints [of_nat cp] = [cp]"
      and other: "cp \<noteq> 0x7E" "\<not> isWhiteSpace cp"
        "\<not> ((0x01 \<le> cp \<and> cp \<le> 0x1F) \<or> cp = 0x7F)"
      by blast+
    from nq have "needsQuotingSpec B [of_nat cp]"
      by (simp only: spec)
    with other show ?thesis
      unfolding needsQuotingSpec_def cps by auto
  qed
  then have "set specBlacklist \<subseteq> B" by blast
  moreover from card have "finite B"
    by (simp add: card_ge_0_finite)
  ultimately have "card (set specBlacklist) \<le> card B"
    by (rule card_mono [rotated])
  moreover have "card (set specBlacklist) = 20"
    by (simp add: specBlacklist_def)
  ultimately show False using card by simp
qed

subsection \<open>C4: the quoted form\<close>

text \<open>
  Claim C4. For every input string without U+0000 that needs quoting, \<open>shellEscapeArg\<close>
  returns a single quote, then the input with every single quote replaced by the four
  characters \<open>'\''\<close>, then a closing single quote.
\<close>

theorem shellEscapeArg_quoted_form:
  "NUL \<notin> set s \<Longrightarrow> needsQuoting s \<Longrightarrow>
   shellEscapeArg (JSString s) = Inr ([apostrophe] @ escapeQuotes s @ [apostrophe])"
  by (simp add: shellEscapeArg_string)

text \<open>The input \<open>O'R\<close> gives \<open>'O'\''R'\<close>.\<close>

theorem shellEscapeArg_quoted_form_witness:
  "NUL \<notin> set [0x4F, apostrophe, 0x52] \<and> needsQuoting [0x4F, apostrophe, 0x52]
   \<and> shellEscapeArg (JSString [0x4F, apostrophe, 0x52])
       = Inr [apostrophe, 0x4F, apostrophe, backslash, apostrophe, apostrophe, 0x52,
              apostrophe]"
proof -
  have h1: "NUL \<notin> set [0x4F, apostrophe, 0x52 :: code_unit]" by simp
  have h2: "needsQuoting [0x4F, apostrophe, 0x52]"
    by (rule apostrophe_needsQuoting) simp
  show ?thesis
    using h1 h2 shellEscapeArg_quoted_form [OF h1 h2] by simp
qed

subsection \<open>C5: the fast path\<close>

text \<open>
  Claim C5. For every input string without U+0000 that does not need quoting,
  \<open>shellEscapeArg\<close> returns the input itself, character for character.
\<close>

theorem shellEscapeArg_fast_path:
  "NUL \<notin> set s \<Longrightarrow> \<not> needsQuoting s \<Longrightarrow> shellEscapeArg (JSString s) = Inr s"
  by (simp add: shellEscapeArg_string)

text \<open>The input \<open>-n\<close> is returned as it is.\<close>

theorem shellEscapeArg_fast_path_witness:
  "NUL \<notin> set [0x2D, 0x6E] \<and> \<not> needsQuoting [0x2D, 0x6E]
   \<and> shellEscapeArg (JSString [0x2D, 0x6E]) = Inr [0x2D, 0x6E]"
proof -
  have h1: "NUL \<notin> set [0x2D, 0x6E :: code_unit]" by simp
  have h2: "\<not> needsQuoting [0x2D, 0x6E]"
    by (simp add: needsQuoting_def startsWithTilde_def hasUnicodeWhitespace_def
          isWhiteSpace_def isLeadSurrogate_def hasShellMetaChars_def shellMetaChars_def)
  show ?thesis
    using h1 h2 shellEscapeArg_fast_path [OF h1 h2] by simp
qed

subsection \<open>C6: the NUL error\<close>

text \<open>
  Claim C6. For every string input, \<open>shellEscapeArg\<close> fails with the Error (the
  ValueKind error) if and only if the input holds the code point U+0000; and when it
  does, the result is that error whatever the classification of the input would be, so
  no output, not even a partial one, is returned.
\<close>

theorem shellEscapeArg_nul_error:
  "((\<exists>m. shellEscapeArg (JSString s) = Inl (Error m)) \<longleftrightarrow> 0 \<in> set (codePoints s))
   \<and> (0 \<in> set (codePoints s) \<longrightarrow>
        shellEscapeArg (JSString s) = Inl (Error nulErrorMessage)
        \<and> (\<forall>out. shellEscapeArg (JSString s) \<noteq> Inr out))"
  by (simp add: shellEscapeArg_string nul_code_point)

text \<open>The input \<open>a\<close>, U+0000, \<open>b\<close> fails, with no output.\<close>

theorem shellEscapeArg_nul_error_witness:
  "0 \<in> set (codePoints [0x61, NUL, 0x62])
   \<and> shellEscapeArg (JSString [0x61, NUL, 0x62]) = Inl (Error nulErrorMessage)
   \<and> (\<forall>out. shellEscapeArg (JSString [0x61, NUL, 0x62]) \<noteq> Inr out)"
proof -
  have h: "0 \<in> set (codePoints [0x61, NUL, 0x62])"
    by (simp add: isLeadSurrogate_def)
  show ?thesis
    using h shellEscapeArg_nul_error [of "[0x61, NUL, 0x62]"] by blast
qed

subsection \<open>C7: one substitution for each single quote\<close>

text \<open>
  Claim C7. For every input string without U+0000, the number of single quotes in the
  input equals the number of occurrences of the substitution \<open>'\''\<close> in the output of
  \<open>shellEscapeArg\<close>.
\<close>

theorem shellEscapeArg_substitution_count:
  "NUL \<notin> set s \<Longrightarrow>
   \<exists>out. shellEscapeArg (JSString s) = Inr out
     \<and> occurrences substitution out = count_list s apostrophe"
proof (cases "needsQuoting s")
  case True
  assume "NUL \<notin> set s"
  with True show ?thesis
    using no_spurious_start [of s] occurrences_body [of s]
    by (simp add: shellEscapeArg_string)
next
  case False
  assume nul: "NUL \<notin> set s"
  from False have "apostrophe \<notin> set s"
    using apostrophe_needsQuoting by blast
  with nul False show ?thesis
    by (simp add: shellEscapeArg_string occurrences_none)
qed

text \<open>
  The input \<open>\''\<close> has two single quotes; its output \<open>'\'\'''\'''\<close> holds the
  substitution twice, although the output begins with quote, backslash, quote.
\<close>

theorem shellEscapeArg_substitution_count_witness:
  "NUL \<notin> set [backslash, apostrophe, apostrophe]
   \<and> shellEscapeArg (JSString [backslash, apostrophe, apostrophe])
       = Inr [apostrophe, backslash, apostrophe, backslash, apostrophe, apostrophe,
              apostrophe, backslash, apostrophe, apostrophe, apostrophe]
   \<and> occurrences substitution
        [apostrophe, backslash, apostrophe, backslash, apostrophe, apostrophe,
         apostrophe, backslash, apostrophe, apostrophe, apostrophe] = 2
   \<and> count_list [backslash, apostrophe, apostrophe] apostrophe = 2"
proof -
  have h: "NUL \<notin> set [backslash, apostrophe, apostrophe :: code_unit]" by simp
  have out: "shellEscapeArg (JSString [backslash, apostrophe, apostrophe])
      = Inr [apostrophe, backslash, apostrophe, backslash, apostrophe, apostrophe,
             apostrophe, backslash, apostrophe, apostrophe, apostrophe]"
    using apostrophe_needsQuoting [of "[backslash, apostrophe, apostrophe]"]
    by (simp add: shellEscapeArg_string)
  have n: "count_list [backslash, apostrophe, apostrophe :: code_unit] apostrophe = 2"
    by simp
  show ?thesis
    using h out n shellEscapeArg_substitution_count [OF h] by simp
qed

subsection \<open>C8: a tilde counts only at the start\<close>

text \<open>
  Claim C8. The tilde condition of \<open>needsQuoting\<close> holds exactly when the first
  character of the input is a tilde. A tilde at any other place does not trigger
  quoting: a string without U+0000 whose first character is not a tilde, and which has
  no white space, no control character and no blacklist character, is returned
  unchanged, wherever else it holds a tilde; so \<open>a~b\<close> gives \<open>a~b\<close>.
\<close>

theorem tilde_only_at_start:
  "(startsWithTilde s \<longleftrightarrow> (case s of [] \<Rightarrow> False | d # ds \<Rightarrow> d = tilde))
   \<and> (c \<noteq> tilde \<and> NUL \<notin> set (c # rest) \<and> \<not> hasUnicodeWhitespace (c # rest)
        \<and> \<not> hasAsciiControlChars (c # rest) \<and> \<not> hasShellMetaChars (c # rest)
      \<longrightarrow> \<not> startsWithTilde (c # rest) \<and> \<not> needsQuoting (c # rest)
          \<and> shellEscapeArg (JSString (c # rest)) = Inr (c # rest))
   \<and> shellEscapeArg (JSString [0x61, tilde, 0x62]) = Inr [0x61, tilde, 0x62]"
proof -
  have "startsWithTilde s \<longleftrightarrow> (case s of [] \<Rightarrow> False | d # ds \<Rightarrow> d = tilde)"
    by (cases s) (auto simp: startsWithTilde_def)
  moreover have "\<not> startsWithTilde (c # rest) \<and> \<not> needsQuoting (c # rest)
      \<and> shellEscapeArg (JSString (c # rest)) = Inr (c # rest)"
    if "c \<noteq> tilde" "NUL \<notin> set (c # rest)" "\<not> hasUnicodeWhitespace (c # rest)"
      "\<not> hasAsciiControlChars (c # rest)" "\<not> hasShellMetaChars (c # rest)"
  proof -
    from that(1) have t: "\<not> startsWithTilde (c # rest)"
      by (simp add: startsWithTilde_def)
    with that have "\<not> needsQuoting (c # rest)"
      by (simp add: needsQuoting_def)
    with t that(2) show ?thesis
      by (simp add: shellEscapeArg_string)
  qed
  moreover have "shellEscapeArg (JSString [0x61, tilde, 0x62]) = Inr [0x61, tilde, 0x62]"
    by (simp add: shellEscapeArg_string needsQuoting_def startsWithTilde_def
          hasUnicodeWhitespace_def isWhiteSpace_def isLeadSurrogate_def hasShellMetaChars_def
          shellMetaChars_def)
  ultimately show ?thesis by blast
qed

text \<open>The input \<open>a~~\<close>, with two tildes after the first character, is returned as it is.\<close>

theorem tilde_only_at_start_witness:
  "0x61 \<noteq> tilde \<and> NUL \<notin> set [0x61, tilde, tilde]
   \<and> \<not> hasUnicodeWhitespace [0x61, tilde, tilde]
   \<and> \<not> hasAsciiControlChars [0x61, tilde, tilde]
   \<and> \<not> hasShellMetaChars [0x61, tilde, tilde]
   \<and> \<not> startsWithTilde [0x61, tilde, tilde]
   \<and> shellEscapeArg (JSString [0x61, tilde, tilde]) = Inr [0x61, tilde, tilde]"
proof -
  have h: "(0x61 :: code_unit) \<noteq> tilde \<and> NUL \<notin> set [0x61, tilde, tilde :: code_unit]
      \<and> \<not> hasUnicodeWhitespace [0x61, tilde, tilde]
      \<and> \<not> hasAsciiControlChars [0x61, tilde, tilde]
      \<and> \<not> hasShellMetaChars [0x61, tilde, tilde]"
    by (simp add: hasUnicodeWhitespace_def isWhiteSpace_def isLeadSurrogate_def
          hasShellMetaChars_def shellMetaChars_def)
  show ?thesis
    using h tilde_only_at_start [of "[]" "0x61" "[tilde, tilde]"] by blast
qed

subsection \<open>C9: the shape of the output\<close>

text \<open>
  Claim C9. For every input string without U+0000, the output of \<open>shellEscapeArg\<close>
  either equals the input, or has at least two characters and begins and ends with a
  single quote; and an output that differs from the input needs quoting itself.
\<close>

theorem shellEscapeArg_output_shape:
  "NUL \<notin> set s \<Longrightarrow>
   \<exists>out. shellEscapeArg (JSString s) = Inr out
     \<and> (out = s \<or> (2 \<le> length out \<and> hd out = apostrophe \<and> last out = apostrophe))
     \<and> (out \<noteq> s \<longrightarrow> needsQuoting out)"
  by (simp add: shellEscapeArg_string apostrophe_needsQuoting)

text \<open>The empty input gives \<open>''\<close>, which needs quoting.\<close>

theorem shellEscapeArg_output_shape_witness:
  "NUL \<notin> set [] \<and> shellEscapeArg (JSString []) = Inr [apostrophe, apostrophe]
   \<and> [apostrophe, apostrophe] \<noteq> [] \<and> needsQuoting [apostrophe, apostrophe]"
proof -
  have h: "NUL \<notin> set ([] :: js_string)" by simp
  have out: "shellEscapeArg (JSString []) = Inr [apostrophe, apostrophe]"
    by (simp add: shellEscapeArg_string needsQuoting_def)
  show ?thesis
    using h out shellEscapeArg_output_shape [OF h] by auto
qed

subsection \<open>C10: the characters of the output\<close>

text \<open>
  Claim C10. For every input string without U+0000, \<open>shellEscapeArg\<close> succeeds, and
  every character of its output is a character of the input, a single quote or a
  backslash; so the output never holds U+0000.
\<close>

theorem shellEscapeArg_output_characters:
  "NUL \<notin> set s \<Longrightarrow>
   \<exists>out. shellEscapeArg (JSString s) = Inr out
     \<and> set out \<subseteq> set s \<union> {apostrophe, backslash} \<and> NUL \<notin> set out"
  using set_escapeQuotes [of s] by (auto simp: shellEscapeArg_string)

text \<open>The input \<open>$'\<close>: the output \<open>'$'\'''\<close> holds only \<open>$\<close>, quotes and a backslash.\<close>

theorem shellEscapeArg_output_characters_witness:
  "NUL \<notin> set [0x24, apostrophe]
   \<and> shellEscapeArg (JSString [0x24, apostrophe])
       = Inr [apostrophe, 0x24, apostrophe, backslash, apostrophe, apostrophe, apostrophe]
   \<and> set [apostrophe, 0x24, apostrophe, backslash, apostrophe, apostrophe, apostrophe]
       \<subseteq> set [0x24, apostrophe] \<union> {apostrophe, backslash}
   \<and> NUL \<notin> set [apostrophe, 0x24, apostrophe, backslash, apostrophe, apostrophe, apostrophe]"
proof -
  have h: "NUL \<notin> set [0x24, apostrophe :: code_unit]" by simp
  have out: "shellEscapeArg (JSString [0x24, apostrophe])
      = Inr [apostrophe, 0x24, apostrophe, backslash, apostrophe, apostrophe, apostrophe]"
    using apostrophe_needsQuoting [of "[0x24, apostrophe]"]
    by (simp add: shellEscapeArg_string)
  show ?thesis
    using h out shellEscapeArg_output_characters [OF h] by simp
qed

end
